theory Spec2Isabelle
  imports Main "HOL-Library.Sublist"
begin

section \<open>The event context\<close>

text \<open>
  The functions of \<^verbatim>\<open>src/functions/private.ts\<close> read three ambient values: the
  event \<^verbatim>\<open>context\<close> of \<^verbatim>\<open>@actions/github\<close>, the process environment
  (\<^verbatim>\<open>process.env.GITHUB_SHA\<close>) and the debug switch \<^verbatim>\<open>core.isDebug()\<close>. The model passes
  them as arguments. A field of the payload that is absent (\<^verbatim>\<open>undefined\<close>) is \<open>None\<close>.
\<close>

datatype error = TypeError | SyntaxError | RemoteError string

record release_payload =
  tag_name :: "string option"
  prerelease :: "bool option"

record payload =
  release :: "release_payload option"
  created :: "bool option"
  ref :: "string option"

record repo_id =
  owner :: string
  repo :: string

record event_context =
  eventName :: string
  payload :: payload
  context_repo :: repo_id

record environment =
  GITHUB_SHA :: "string option"
  isDebug :: bool

section \<open>Event classification\<close>

definition isRelease :: "event_context \<Rightarrow> bool" where
  "isRelease c = (eventName c = ''release'')"

text \<open>\<^verbatim>\<open>context.payload.release?.prerelease === true\<close>: false when there is no release
  object, no flag, or a flag other than \<^verbatim>\<open>true\<close>.\<close>

definition isPreRelease :: "event_context \<Rightarrow> bool" where
  "isPreRelease c =
     (case release (payload c) of
        None \<Rightarrow> False
      | Some r \<Rightarrow> prerelease r = Some True)"

definition isPublicRelease :: "event_context \<Rightarrow> bool" where
  "isPublicRelease c = (isRelease c \<and> \<not> isPreRelease c)"

definition isPush :: "event_context \<Rightarrow> bool" where
  "isPush c = (eventName c = ''push'')"

definition isNewRefPush :: "event_context \<Rightarrow> bool" where
  "isNewRefPush c = (isPush c \<and> created (payload c) = Some True)"

text \<open>\<^verbatim>\<open>context.payload.ref.startsWith(...)\<close> is evaluated only when \<^verbatim>\<open>isNewRefPush()\<close> holds
  (\<^verbatim>\<open>&&\<close> short-circuits); on a payload without \<^verbatim>\<open>ref\<close> the member access throws a
  TypeError.\<close>

definition startsWith :: "string option \<Rightarrow> string \<Rightarrow> error + bool" where
  "startsWith s p = (case s of None \<Rightarrow> Inl TypeError | Some t \<Rightarrow> Inr (prefix p t))"

definition isBranchPush :: "event_context \<Rightarrow> error + bool" where
  "isBranchPush c =
     (if isNewRefPush c then startsWith (ref (payload c)) ''refs/heads/'' else Inr False)"

definition isTagPush :: "event_context \<Rightarrow> error + bool" where
  "isTagPush c =
     (if isNewRefPush c then startsWith (ref (payload c)) ''refs/tags/'' else Inr False)"

section \<open>The semver package\<close>

text \<open>
  \<^verbatim>\<open>semver/functions/parse\<close> and \<^verbatim>\<open>semver/functions/coerce\<close> belong to the external
  package \<^verbatim>\<open>semver\<close>. Their grammars are parameters of the model: \<open>parse_str\<close> is strict
  parsing of a string (the functions below call \<^verbatim>\<open>semverParse\<close> with no options, hence
  never in loose mode), \<open>coerce_str\<close> is coercion of a string; both answer \<open>None\<close> for
  \<^verbatim>\<open>null\<close>. On the other values that reach them here the package hands a \<^verbatim>\<open>SemVer\<close>
  instance back unchanged and answers \<^verbatim>\<open>null\<close> to \<^verbatim>\<open>undefined\<close> and \<^verbatim>\<open>null\<close>;
  neither function throws.
\<close>

datatype 'v js_value = Undefined | Null | Str string | SemVerObj 'v

definition semverParse :: "(string \<Rightarrow> 'v option) \<Rightarrow> 'v js_value \<Rightarrow> 'v option" where
  "semverParse parse_str x =
     (case x of
        SemVerObj v \<Rightarrow> Some v
      | Str s \<Rightarrow> parse_str s
      | Undefined \<Rightarrow> None
      | Null \<Rightarrow> None)"

definition coerce :: "(string \<Rightarrow> 'v option) \<Rightarrow> 'v js_value \<Rightarrow> 'v js_value" where
  "coerce coerce_str x =
     (case x of
        SemVerObj v \<Rightarrow> SemVerObj v
      | Str s \<Rightarrow> (case coerce_str s of None \<Rightarrow> Null | Some v \<Rightarrow> SemVerObj v)
      | Undefined \<Rightarrow> Null
      | Null \<Rightarrow> Null)"

section \<open>The version of the current event\<close>

text \<open>
  \<^verbatim>\<open>getPushRefVersion\<close> builds \<^verbatim>\<open>new RegExp(`^refs/${preferredRef}/`)\<close> and removes its
  first match from the ref with \<^verbatim>\<open>replace\<close>. The regular expression engine belongs to
  the JavaScript runtime. Where \<^verbatim>\<open>preferredRef\<close> has none of the syntax characters of
  patterns, as \<^verbatim>\<open>heads\<close> and \<^verbatim>\<open>tags\<close> have none, the pattern is \<^verbatim>\<open>^\<close> followed by
  characters that stand for themselves: it matches at the start of the strings that begin
  with \<^verbatim>\<open>refs/{preferredRef}/\<close>, and \<^verbatim>\<open>replace\<close> removes that prefix. For every other
  \<^verbatim>\<open>preferredRef\<close> the engine is a parameter of the model: \<open>regexp source\<close> is \<open>None\<close>
  when \<open>source\<close> is not a pattern, where the constructor throws a SyntaxError, and
  otherwise the function that removes the first match of the pattern from a string.
\<close>

definition regex_syntax_characters :: string where
  "regex_syntax_characters = CHR 0x5C # ''^$.*+?()[]{}|''"

definition regex_literal :: "string \<Rightarrow> bool" where
  "regex_literal p = (\<forall>ch \<in> set p. ch \<notin> set regex_syntax_characters)"

definition replace_prefix :: "string \<Rightarrow> string \<Rightarrow> string" where
  "replace_prefix p s = (if prefix p s then drop (length p) s else s)"

definition namespace_RegExp ::
  "(string \<Rightarrow> (string \<Rightarrow> string) option) \<Rightarrow> string \<Rightarrow> error + (string \<Rightarrow> string)" where
  "namespace_RegExp regexp preferredRef =
     (if regex_literal preferredRef then
        Inr (replace_prefix (''refs/'' @ preferredRef @ ''/''))
      else
        (case regexp (''^refs/'' @ preferredRef @ ''/'') of
           None \<Rightarrow> Inl SyntaxError
         | Some remove_match \<Rightarrow> Inr remove_match))"

text \<open>
  Both functions below return \<^verbatim>\<open>SemVer\<close> or \<^verbatim>\<open>null\<close>, the latter being \<open>Inr None\<close>; a
  thrown error is \<open>Inl\<close>. The optional chains
  \<^verbatim>\<open>(context.payload.ref as string)?.replace(...)\<close> and
  \<^verbatim>\<open>context.payload.release?.tag_name\<close> give \<^verbatim>\<open>undefined\<close> when the field, or the release
  object, is absent; the first then skips its arguments, so that the regular expression is
  built only for a ref that is present.
\<close>

definition getPushRefVersion ::
  "(string \<Rightarrow> 'v option) \<Rightarrow> (string \<Rightarrow> (string \<Rightarrow> string) option) \<Rightarrow> event_context
   \<Rightarrow> string \<Rightarrow> error + 'v option" where
  "getPushRefVersion parse_str regexp c preferredRef =
     (case ref (payload c) of
        None \<Rightarrow> Inr (semverParse parse_str Undefined)
      | Some r \<Rightarrow>
          (case namespace_RegExp regexp preferredRef of
             Inl e \<Rightarrow> Inl e
           | Inr remove_match \<Rightarrow>
               (let refName = Str (remove_match r)
                in Inr (semverParse parse_str refName))))"

definition release_tag_name :: "event_context \<Rightarrow> 'v js_value" where
  "release_tag_name c =
     (case Option.bind (release (payload c)) tag_name of
        None \<Rightarrow> Undefined
      | Some t \<Rightarrow> Str t)"

definition getReleaseTag ::
  "(string \<Rightarrow> 'v option) \<Rightarrow> (string \<Rightarrow> 'v option) \<Rightarrow> event_context \<Rightarrow> error + 'v option" where
  "getReleaseTag parse_str coerce_str c =
     (let tagName = release_tag_name c;
          tagName = (if isPreRelease c then coerce coerce_str tagName else tagName)
      in Inr (semverParse parse_str tagName))"

section \<open>Creating or updating a ref\<close>

text \<open>
  The REST client \<^verbatim>\<open>github.rest.git\<close> is the record of its three operations used here;
  each answers with its \<^verbatim>\<open>data\<close> or rejects (\<open>Inl\<close>). An element of the answer of
  \<^verbatim>\<open>listMatchingRefs\<close> is an object with a field \<^verbatim>\<open>ref\<close>; the \<^verbatim>\<open>data\<close> of a mutation
  is kept as its JSON text. Every call receives the owner and the name of
  \<^verbatim>\<open>context.repo\<close>. What \<^verbatim>\<open>createRef\<close> does is the list of its effects in order: calls
  of the client, \<^verbatim>\<open>core.info\<close> and \<^verbatim>\<open>core.debug\<close> lines.
\<close>

record ref_obj =
  refObj_ref :: string

datatype rest_call =
    ListMatchingRefs repo_id string
  | UpdateRef repo_id bool string "string option"
  | CreateRef repo_id string "string option"

datatype effect = Call rest_call | Info string | Debug string

record github_rest =
  listMatchingRefs :: "repo_id \<Rightarrow> string \<Rightarrow> error + ref_obj list"
  updateRef :: "repo_id \<Rightarrow> bool \<Rightarrow> string \<Rightarrow> string option \<Rightarrow> error + string"
  rest_createRef :: "repo_id \<Rightarrow> string \<Rightarrow> string option \<Rightarrow> error + string"

text \<open>A template literal prints an unset environment variable as \<^verbatim>\<open>undefined\<close>.\<close>

definition interpolate :: "string option \<Rightarrow> string" where
  "interpolate x = (case x of None \<Rightarrow> ''undefined'' | Some s \<Rightarrow> s)"

definition endsWith :: "string \<Rightarrow> string \<Rightarrow> bool" where
  "endsWith s p = suffix p s"

definition createRef ::
  "github_rest \<Rightarrow> event_context \<Rightarrow> environment \<Rightarrow> string \<Rightarrow> effect list \<times> (error + unit)" where
  "createRef github c env refName =
     (let listed = Call (ListMatchingRefs (context_repo c) refName) in
      case listMatchingRefs github (context_repo c) refName of
        Inl e \<Rightarrow> ([listed], Inl e)
      | Inr matchingRefs \<Rightarrow>
          (let matchingRef = find (\<lambda>refObj. endsWith (refObj_ref refObj) refName) matchingRefs;
               (mutation, answer) =
                 (if matchingRef \<noteq> None then
                    ([Info (''Updating ref: '' @ refName @ '' to: '' @ interpolate (GITHUB_SHA env)),
                      Call (UpdateRef (context_repo c) True refName (GITHUB_SHA env))],
                     updateRef github (context_repo c) True refName (GITHUB_SHA env))
                  else
                    ([Info (''Creating ref: refs/'' @ refName @ '' for: ''
                              @ interpolate (GITHUB_SHA env)),
                      Call (CreateRef (context_repo c) (''refs/'' @ refName) (GITHUB_SHA env))],
                     rest_createRef github (context_repo c) (''refs/'' @ refName) (GITHUB_SHA env)))
           in case answer of
                Inl e \<Rightarrow> (listed # mutation, Inl e)
              | Inr upstreamRef \<Rightarrow>
                  (listed # mutation @
                     (if isDebug env then
                        [Debug (upstreamRef @ '' now points to: '' @ [CHR 0x22]
                                  @ interpolate (GITHUB_SHA env) @ [CHR 0x22])]
                      else []),
                   Inr ())))"

text \<open>The calls of the client among the effects, and the mutations among the calls.\<close>

fun calls_of :: "effect list \<Rightarrow> rest_call list" where
  "calls_of [] = []"
| "calls_of (Call k # es) = k # calls_of es"
| "calls_of (_ # es) = calls_of es"

fun is_update :: "rest_call \<Rightarrow> bool" where
  "is_update (UpdateRef _ _ _ _) = True"
| "is_update _ = False"

fun is_create :: "rest_call \<Rightarrow> bool" where
  "is_create (CreateRef _ _ _) = True"
| "is_create _ = False"

definition mutations_of :: "effect list \<Rightarrow> rest_call list" where
  "mutations_of es = filter (\<lambda>k. is_update k \<or> is_create k) (calls_of es)"

text \<open>Whether the refs the remote lists hold the ref of exactly this name, and whether
  that ref is the only one of them whose name ends with the ref name.\<close>

definition exact_ref_exists :: "ref_obj list \<Rightarrow> string \<Rightarrow> bool" where
  "exact_ref_exists matchingRefs refName =
     (\<exists>refObj \<in> set matchingRefs. refObj_ref refObj = ''refs/'' @ refName)"

definition no_other_suffix_match :: "ref_obj list \<Rightarrow> string \<Rightarrow> bool" where
  "no_other_suffix_match matchingRefs refName =
     (\<forall>refObj \<in> set matchingRefs.
        endsWith (refObj_ref refObj) refName \<longrightarrow> refObj_ref refObj = ''refs/'' @ refName)"

text \<open>The commit id a mutation points the ref at.\<close>

fun target_sha :: "rest_call \<Rightarrow> string option" where
  "target_sha (ListMatchingRefs _ _) = None"
| "target_sha (UpdateRef _ _ _ sha) = sha"
| "target_sha (CreateRef _ _ sha) = sha"

section \<open>Enumerating the refs\<close>

text \<open>
  The shape of \<^verbatim>\<open>GraphQlQueryRepository\<close> is read off the accesses of \<^verbatim>\<open>listAllRefs\<close>:
  \<^verbatim>\<open>repository.refs.refsList\<close>, whose elements wrap a \<^verbatim>\<open>ref\<close> with \<^verbatim>\<open>name\<close> and
  \<^verbatim>\<open>object.shaId\<close> (the model lists the refs themselves), and
  \<^verbatim>\<open>repository.refs.pageInfo\<close> with \<^verbatim>\<open>hasNextPage\<close> and \<^verbatim>\<open>endCursor\<close>.
\<close>

record git_object =
  shaId :: string

record git_ref =
  name :: string
  object :: git_object

record page_info =
  endCursor :: string
  hasNextPage :: bool

record refs_connection =
  refsList :: "git_ref list"
  pageInfo :: page_info

record repository =
  refs :: refs_connection

record query_vars =
  repoName :: string
  repoOwner :: string
  majorRef :: string
  pagination :: "string option"

text \<open>
  The generator is run to its end by a consumer that takes every value. Its effects, in
  order, are the queries it sends, the pairs it yields and its debug lines. The remote is
  the sequence of its answers to the successive queries, a page or a rejection each; the
  variable \<^verbatim>\<open>nextPage\<close> is \<^verbatim>\<open>undefined\<close> (\<open>None\<close>) until the first page has been read.
  The result is \<open>Some (Inr ())\<close> when the loop leaves through \<^verbatim>\<open>break\<close>,
  \<open>Some (Inl e)\<close> when a query rejects, and \<open>None\<close> when the generator has not returned
  after the answers given: it has sent one more query and waits.
\<close>

datatype 'v gen_effect = Graphql query_vars | Yield 'v string | DebugLine string

definition graphql_vars :: "event_context \<Rightarrow> string \<Rightarrow> string option \<Rightarrow> query_vars" where
  "graphql_vars c preferredRef nextPage =
     \<lparr>repoName = repo (context_repo c),
      repoOwner = owner (context_repo c),
      majorRef = ''refs/'' @ preferredRef @ ''/'',
      pagination = nextPage\<rparr>"

fun refs_loop :: "(string \<Rightarrow> 'v option) \<Rightarrow> environment \<Rightarrow> git_ref list \<Rightarrow> 'v gen_effect list" where
  "refs_loop parse_str env [] = []"
| "refs_loop parse_str env (r # rest) =
     (case semverParse parse_str (Str (name r)) of
        Some semverRef \<Rightarrow>
          (if isDebug env then [DebugLine (''checking '' @ name r)] else [])
          @ Yield semverRef (shaId (object r)) # refs_loop parse_str env rest
      | None \<Rightarrow>
          (if isDebug env then [DebugLine (''ignoring '' @ name r)] else [])
          @ refs_loop parse_str env rest)"

fun listAllRefs_loop ::
  "(string \<Rightarrow> 'v option) \<Rightarrow> event_context \<Rightarrow> environment \<Rightarrow> string \<Rightarrow> string option
   \<Rightarrow> (error + repository) list \<Rightarrow> 'v gen_effect list \<times> (error + unit) option" where
  "listAllRefs_loop parse_str c env preferredRef nextPage [] =
     ([Graphql (graphql_vars c preferredRef nextPage)], None)"
| "listAllRefs_loop parse_str c env preferredRef nextPage (answer # answers) =
     (case answer of
        Inl e \<Rightarrow> ([Graphql (graphql_vars c preferredRef nextPage)], Some (Inl e))
      | Inr repository \<Rightarrow>
          (let page = Graphql (graphql_vars c preferredRef nextPage)
                       # refs_loop parse_str env (refsList (refs repository))
           in if hasNextPage (pageInfo (refs repository)) then
                (case listAllRefs_loop parse_str c env preferredRef
                        (Some (endCursor (pageInfo (refs repository)))) answers of
                   (later, result) \<Rightarrow> (page @ later, result))
              else (page, Some (Inr ()))))"

definition listAllRefs ::
  "(string \<Rightarrow> 'v option) \<Rightarrow> event_context \<Rightarrow> environment \<Rightarrow> string
   \<Rightarrow> (error + repository) list \<Rightarrow> 'v gen_effect list \<times> (error + unit) option" where
  "listAllRefs parse_str c env preferredRef answers =
     listAllRefs_loop parse_str c env preferredRef None answers"

text \<open>The queries and the yielded pairs among the effects.\<close>

fun queries_of :: "'v gen_effect list \<Rightarrow> query_vars list" where
  "queries_of [] = []"
| "queries_of (Graphql q # es) = q # queries_of es"
| "queries_of (_ # es) = queries_of es"

fun yields_of :: "'v gen_effect list \<Rightarrow> ('v \<times> string) list" where
  "yields_of [] = []"
| "yields_of (Yield v s # es) = (v, s) # yields_of es"
| "yields_of (_ # es) = yields_of es"

text \<open>The refs of a page whose names parse, each with its version and its commit id, in
  the order of the page.\<close>

definition parsed_refs :: "(string \<Rightarrow> 'v option) \<Rightarrow> repository \<Rightarrow> ('v \<times> string) list" where
  "parsed_refs parse_str p =
     List.map_filter (\<lambda>r. map_option (\<lambda>v. (v, shaId (object r))) (parse_str (name r)))
       (refsList (refs p))"

text \<open>A sequence of pages as a remote with finitely many pages serves it: every page but
  the last reports a next page, and the last reports none.\<close>

fun page_sequence :: "repository list \<Rightarrow> bool" where
  "page_sequence [] = False"
| "page_sequence [p] = (\<not> hasNextPage (pageInfo (refs p)))"
| "page_sequence (p # q # ps) = (hasNextPage (pageInfo (refs p)) \<and> page_sequence (q # ps))"

section \<open>Example contexts\<close>

definition repo0 :: repo_id where
  "repo0 = \<lparr>owner = ''gomex'', repo = ''actions-tagger''\<rparr>"

definition release_ctx :: "string option \<Rightarrow> bool option \<Rightarrow> event_context" where
  "release_ctx t p =
     \<lparr>eventName = ''release'',
      payload = \<lparr>release = Some \<lparr>tag_name = t, prerelease = p\<rparr>, created = None, ref = None\<rparr>,
      context_repo = repo0\<rparr>"

definition push_ctx :: "string option \<Rightarrow> bool option \<Rightarrow> event_context" where
  "push_ctx r c =
     \<lparr>eventName = ''push'',
      payload = \<lparr>release = None, created = c, ref = r\<rparr>,
      context_repo = repo0\<rparr>"

text \<open>What the semver package answers on the strings of the examples, as a table: versions
  are triples of major, minor and patch.\<close>

definition sample_parse :: "string \<Rightarrow> (nat \<times> nat \<times> nat) option" where
  "sample_parse s =
     (if s = ''1.0.0'' \<or> s = ''v1.0.0'' then Some (1, 0, 0)
      else if s = ''v1.2.3'' then Some (1, 2, 3)
      else if s = ''2.0.0'' then Some (2, 0, 0)
      else None)"

definition sample_coerce :: "string \<Rightarrow> (nat \<times> nat \<times> nat) option" where
  "sample_coerce s =
     (if s = ''v3.1-beta'' then Some (3, 1, 0)
      else if s = ''2.0.0'' then Some (2, 0, 0)
      else if s = ''v1.2.3'' then Some (1, 2, 3)
      else None)"

text \<open>What the regular expression engine answers on the patterns of the examples, for
  ASCII strings: in \<^verbatim>\<open>^refs/t.gs/\<close> the dot stands for any character but a line end, and
  \<^verbatim>\<open>^refs/**/\<close> is not a pattern.\<close>

definition remove_refs_t_gs :: "string \<Rightarrow> string" where
  "remove_refs_t_gs s =
     (if 10 \<le> length s \<and> take 6 s = ''refs/t'' \<and> take 3 (drop 7 s) = ''gs/''
         \<and> s ! 6 \<noteq> CHR 0x0A \<and> s ! 6 \<noteq> CHR 0x0D
      then drop 10 s else s)"

definition sample_regexp :: "string \<Rightarrow> (string \<Rightarrow> string) option" where
  "sample_regexp source = (if source = ''^refs/t.gs/'' then Some remove_refs_t_gs else None)"

definition fork_ctx :: event_context where
  "fork_ctx = (push_ctx (Some ''refs/tags/v1.0.0'') (Some True))
     \<lparr>context_repo := \<lparr>owner = ''fork'', repo = ''actions-tagger''\<rparr>\<rparr>"

definition env0 :: environment where
  "env0 = \<lparr>GITHUB_SHA = Some ''c0ffee'', isDebug = False\<rparr>"

definition remote_refs :: "string list \<Rightarrow> github_rest" where
  "remote_refs rs =
     \<lparr>listMatchingRefs = (\<lambda>_ p. Inr (map (\<lambda>r. \<lparr>refObj_ref = r\<rparr>) (filter (prefix (''refs/'' @ p)) rs))),
      updateRef = (\<lambda>_ _ r _. Inr r),
      rest_createRef = (\<lambda>_ r _. Inr r)\<rparr>"

definition mk_ref :: "string \<Rightarrow> string \<Rightarrow> git_ref" where
  "mk_ref n s = \<lparr>name = n, object = \<lparr>shaId = s\<rparr>\<rparr>"

definition mk_page :: "git_ref list \<Rightarrow> string \<Rightarrow> bool \<Rightarrow> repository" where
  "mk_page rs cur has_next =
     \<lparr>refs = \<lparr>refsList = rs, pageInfo = \<lparr>endCursor = cur, hasNextPage = has_next\<rparr>\<rparr>\<rparr>"

definition page1 :: repository where
  "page1 = mk_page [mk_ref ''v1.0.0'' ''aaa''] ''abc'' True"

definition page2 :: repository where
  "page2 = mk_page [mk_ref ''latest'' ''bbb'', mk_ref ''v1.2.3'' ''ccc''] [] False"

definition page_unversioned :: repository where
  "page_unversioned = mk_page [mk_ref ''latest'' ''bbb'', mk_ref ''main'' ''ddd''] [] False"

section \<open>Properties of the classifier\<close>

text \<open>
  Claim C7. For every event context, \<open>isPublicRelease\<close> is true exactly when \<open>isRelease\<close>
  is true and \<open>isPreRelease\<close> is false.
\<close>

theorem isPublicRelease_iff:
  "isPublicRelease c \<longleftrightarrow> isRelease c \<and> \<not> isPreRelease c"
  by (simp add: isPublicRelease_def)

text \<open>The equivalence at a public release and at a pre-release.\<close>

theorem isPublicRelease_iff_witness:
  "isPublicRelease (release_ctx (Some ''2.0.0'') (Some False))
   \<and> isRelease (release_ctx (Some ''2.0.0'') (Some False))
   \<and> \<not> isPreRelease (release_ctx (Some ''2.0.0'') (Some False))
   \<and> \<not> isPublicRelease (release_ctx (Some ''v3.1-beta'') (Some True))
   \<and> isPreRelease (release_ctx (Some ''v3.1-beta'') (Some True))"
  using isPublicRelease_iff [of "release_ctx (Some ''2.0.0'') (Some False)"]
    isPublicRelease_iff [of "release_ctx (Some ''v3.1-beta'') (Some True)"]
  by (simp add: isRelease_def isPreRelease_def release_ctx_def)

lemma heads_tags_disjoint: "\<not> (prefix ''refs/heads/'' s \<and> prefix ''refs/tags/'' s)"
  by (auto simp: prefix_def)

text \<open>
  Claim C8. For every event context, \<open>isBranchPush\<close> and \<open>isTagPush\<close> are never both
  true, and whenever one of them is true, \<open>isNewRefPush\<close> is true.
\<close>

theorem branch_tag_push_exclusive:
  "\<not> (isBranchPush c = Inr True \<and> isTagPush c = Inr True)
   \<and> (isBranchPush c = Inr True \<longrightarrow> isNewRefPush c)
   \<and> (isTagPush c = Inr True \<longrightarrow> isNewRefPush c)"
proof (cases "isNewRefPush c")
  case False
  then show ?thesis by (simp add: isBranchPush_def isTagPush_def)
next
  case True
  show ?thesis
  proof (cases "ref (payload c)")
    case None
    with True show ?thesis by (simp add: isBranchPush_def isTagPush_def startsWith_def)
  next
    case (Some s)
    with True heads_tags_disjoint [of s] show ?thesis
      by (simp add: isBranchPush_def isTagPush_def startsWith_def)
  qed
qed

text \<open>A new branch push is a branch push, not a tag push, and a new-ref push; a new tag
  push is the converse.\<close>

theorem branch_tag_push_exclusive_witness:
  "isBranchPush (push_ctx (Some ''refs/heads/main'') (Some True)) = Inr True
   \<and> isTagPush (push_ctx (Some ''refs/heads/main'') (Some True)) = Inr False
   \<and> isNewRefPush (push_ctx (Some ''refs/heads/main'') (Some True))
   \<and> isTagPush (push_ctx (Some ''refs/tags/v1.2.3'') (Some True)) = Inr True
   \<and> isBranchPush (push_ctx (Some ''refs/tags/v1.2.3'') (Some True)) = Inr False
   \<and> isNewRefPush (push_ctx (Some ''refs/tags/v1.2.3'') (Some True))"
  using branch_tag_push_exclusive [of "push_ctx (Some ''refs/heads/main'') (Some True)"]
    branch_tag_push_exclusive [of "push_ctx (Some ''refs/tags/v1.2.3'') (Some True)"]
  by (simp add: isBranchPush_def isTagPush_def isNewRefPush_def isPush_def startsWith_def
      push_ctx_def)

section \<open>Properties of the version of the current event\<close>

lemma getReleaseTag_no_tag:
  assumes "Option.bind (release (payload c)) tag_name = None"
  shows "getReleaseTag parse_str coerce_str c = Inr None"
  using assms by (simp add: getReleaseTag_def release_tag_name_def semverParse_def coerce_def)

lemma getReleaseTag_prerelease:
  assumes "isPreRelease c" and "Option.bind (release (payload c)) tag_name = Some t"
  shows "getReleaseTag parse_str coerce_str c = Inr (coerce_str t)"
  using assms
  by (simp add: getReleaseTag_def release_tag_name_def semverParse_def coerce_def
      split: option.splits)

lemma getReleaseTag_public:
  assumes "\<not> isPreRelease c" and "Option.bind (release (payload c)) tag_name = Some t"
  shows "getReleaseTag parse_str coerce_str c = Inr (parse_str t)"
  using assms by (simp add: getReleaseTag_def release_tag_name_def semverParse_def)

text \<open>Without a ref no regular expression is built and the result is \<^verbatim>\<open>null\<close>, whatever
  \<^verbatim>\<open>preferredRef\<close> is.\<close>

lemma getPushRefVersion_no_ref:
  assumes "ref (payload c) = None"
  shows "getPushRefVersion parse_str regexp c preferredRef = Inr None"
  using assms by (simp add: getPushRefVersion_def semverParse_def)

text \<open>With a ref and a pattern the engine accepts, the result is the strict parse of the ref
  without the match of the pattern.\<close>

lemma getPushRefVersion_ref:
  assumes "ref (payload c) = Some r"
    and "namespace_RegExp regexp preferredRef = Inr remove_match"
  shows "getPushRefVersion parse_str regexp c preferredRef = Inr (parse_str (remove_match r))"
  using assms by (simp add: getPushRefVersion_def semverParse_def)

lemma namespace_RegExp_literal:
  assumes "regex_literal preferredRef"
  shows "namespace_RegExp regexp preferredRef
           = Inr (replace_prefix (''refs/'' @ preferredRef @ ''/''))"
  using assms by (simp add: namespace_RegExp_def)

lemma getPushRefVersion_literal:
  assumes "ref (payload c) = Some r" and "regex_literal preferredRef"
  shows "getPushRefVersion parse_str regexp c preferredRef
           = Inr (parse_str (replace_prefix (''refs/'' @ preferredRef @ ''/'') r))"
  using getPushRefVersion_ref [OF assms(1) namespace_RegExp_literal [OF assms(2)]] .

text \<open>With a ref and a \<^verbatim>\<open>preferredRef\<close> that does not make a pattern, the constructor
  throws and \<open>getPushRefVersion\<close> with it: the function can raise.\<close>

lemma getPushRefVersion_not_a_pattern:
  assumes "ref (payload c) = Some r" and "\<not> regex_literal preferredRef"
    and "regexp (''^refs/'' @ preferredRef @ ''/'') = None"
  shows "getPushRefVersion parse_str regexp c preferredRef = Inl SyntaxError"
  using assms by (simp add: getPushRefVersion_def namespace_RegExp_def)

lemma getPushRefVersion_not_a_pattern_example:
  "getPushRefVersion sample_parse sample_regexp
     (push_ctx (Some ''refs/tags/v1.2.3'') (Some True)) ''**'' = Inl SyntaxError"
  by (simp add: getPushRefVersion_def namespace_RegExp_def regex_literal_def
      regex_syntax_characters_def sample_regexp_def push_ctx_def)

text \<open>A new-ref push without a ref stops in the classifier: both tests throw.\<close>

lemma new_ref_push_without_ref_throws:
  assumes "isNewRefPush c" and "ref (payload c) = None"
  shows "isBranchPush c = Inl TypeError \<and> isTagPush c = Inl TypeError"
  using assms by (simp add: isBranchPush_def isTagPush_def startsWith_def)

text \<open>
  Claim C6. Coercion is applied to the tag name of a release exactly when the release is
  a pre-release: \<open>getReleaseTag\<close> parses the coerced tag name when the flag is true and
  parses the tag name itself, strictly, when it is not. \<open>getPushRefVersion\<close> parses the
  ref without its namespace prefix strictly and never coerces it: for a \<^verbatim>\<open>preferredRef\<close>
  without syntax characters of patterns, such as \<^verbatim>\<open>heads\<close> and \<^verbatim>\<open>tags\<close>, the prefix is
  \<^verbatim>\<open>refs/{preferredRef}/\<close>, and for any \<^verbatim>\<open>preferredRef\<close> that makes a pattern it is the
  match of that pattern.
\<close>

theorem coercion_iff_prerelease:
  "(isPreRelease c \<and> Option.bind (release (payload c)) tag_name = Some t
      \<longrightarrow> getReleaseTag parse_str coerce_str c
            = Inr (semverParse parse_str (coerce coerce_str (Str t)))
          \<and> getReleaseTag parse_str coerce_str c = Inr (coerce_str t))
   \<and> (\<not> isPreRelease c \<and> Option.bind (release (payload c)) tag_name = Some t
      \<longrightarrow> getReleaseTag parse_str coerce_str c = Inr (semverParse parse_str (Str t))
          \<and> getReleaseTag parse_str coerce_str c = Inr (parse_str t))
   \<and> (ref (payload c) = Some r \<and> regex_literal preferredRef
      \<longrightarrow> getPushRefVersion parse_str regexp c preferredRef
            = Inr (semverParse parse_str
                     (Str (replace_prefix (''refs/'' @ preferredRef @ ''/'') r)))
          \<and> getPushRefVersion parse_str regexp c preferredRef
            = Inr (parse_str (replace_prefix (''refs/'' @ preferredRef @ ''/'') r)))
   \<and> (ref (payload c) = Some r \<and> namespace_RegExp regexp preferredRef = Inr remove_match
      \<longrightarrow> getPushRefVersion parse_str regexp c preferredRef
            = Inr (semverParse parse_str (Str (remove_match r)))
          \<and> getPushRefVersion parse_str regexp c preferredRef
            = Inr (parse_str (remove_match r)))"
proof (intro conjI impI)
  assume h: "isPreRelease c \<and> Option.bind (release (payload c)) tag_name = Some t"
  then show "getReleaseTag parse_str coerce_str c = Inr (coerce_str t)"
    by (simp add: getReleaseTag_prerelease)
  then show "getReleaseTag parse_str coerce_str c
               = Inr (semverParse parse_str (coerce coerce_str (Str t)))"
    by (simp add: semverParse_def coerce_def split: option.splits)
next
  assume h: "\<not> isPreRelease c \<and> Option.bind (release (payload c)) tag_name = Some t"
  then show "getReleaseTag parse_str coerce_str c = Inr (parse_str t)"
    by (simp add: getReleaseTag_public)
  then show "getReleaseTag parse_str coerce_str c = Inr (semverParse parse_str (Str t))"
    by (simp add: semverParse_def)
next
  assume h: "ref (payload c) = Some r \<and> regex_literal preferredRef"
  then show "getPushRefVersion parse_str regexp c preferredRef
               = Inr (parse_str (replace_prefix (''refs/'' @ preferredRef @ ''/'') r))"
    by (simp add: getPushRefVersion_literal)
  then show "getPushRefVersion parse_str regexp c preferredRef
               = Inr (semverParse parse_str
                        (Str (replace_prefix (''refs/'' @ preferredRef @ ''/'') r)))"
    by (simp add: semverParse_def)
next
  assume h: "ref (payload c) = Some r
               \<and> namespace_RegExp regexp preferredRef = Inr remove_match"
  then show "getPushRefVersion parse_str regexp c preferredRef
               = Inr (parse_str (remove_match r))"
    by (simp add: getPushRefVersion_ref)
  then show "getPushRefVersion parse_str regexp c preferredRef
               = Inr (semverParse parse_str (Str (remove_match r)))"
    by (simp add: semverParse_def)
qed

text \<open>
  The tag \<^verbatim>\<open>v3.1-beta\<close> resolves to 3.1.0 on a pre-release and to \<^verbatim>\<open>null\<close> on a public
  release, where it is parsed strictly; the pushed ref \<^verbatim>\<open>refs/tags/v1.2.3\<close> resolves to
  1.2.3 under \<^verbatim>\<open>tags\<close>, and under \<^verbatim>\<open>t.gs\<close> too, whose dot matches the \<^verbatim>\<open>a\<close>.
\<close>

theorem coercion_iff_prerelease_witness:
  "isPreRelease (release_ctx (Some ''v3.1-beta'') (Some True))
   \<and> getReleaseTag sample_parse sample_coerce (release_ctx (Some ''v3.1-beta'') (Some True))
       = Inr (Some (3, 1, 0))
   \<and> \<not> isPreRelease (release_ctx (Some ''v3.1-beta'') (Some False))
   \<and> getReleaseTag sample_parse sample_coerce (release_ctx (Some ''v3.1-beta'') (Some False))
       = Inr None
   \<and> regex_literal ''tags''
   \<and> getPushRefVersion sample_parse sample_regexp
         (push_ctx (Some ''refs/tags/v1.2.3'') (Some True)) ''tags''
       = Inr (Some (1, 2, 3))
   \<and> \<not> regex_literal ''t.gs''
   \<and> namespace_RegExp sample_regexp ''t.gs'' = Inr remove_refs_t_gs
   \<and> getPushRefVersion sample_parse sample_regexp
         (push_ctx (Some ''refs/tags/v1.2.3'') (Some True)) ''t.gs''
       = Inr (Some (1, 2, 3))"
proof -
  have lit: "regex_literal ''tags''" and not_lit: "\<not> regex_literal ''t.gs''"
    by (simp_all add: regex_literal_def regex_syntax_characters_def)
  have pat: "namespace_RegExp sample_regexp ''t.gs'' = Inr remove_refs_t_gs"
    using not_lit by (simp add: namespace_RegExp_def sample_regexp_def)
  have strip2: "remove_refs_t_gs ''refs/tags/v1.2.3'' = ''v1.2.3''"
    by (simp add: remove_refs_t_gs_def)
  have v: "sample_parse ''v1.2.3'' = Some (1, 2, 3)"
    by (simp add: sample_parse_def)
  note pre = coercion_iff_prerelease
    [where c = "release_ctx (Some ''v3.1-beta'') (Some True)" and t = "''v3.1-beta''"
      and parse_str = sample_parse and coerce_str = sample_coerce,
      THEN conjunct1]
  note pub = coercion_iff_prerelease
    [where c = "release_ctx (Some ''v3.1-beta'') (Some False)" and t = "''v3.1-beta''"
      and parse_str = sample_parse and coerce_str = sample_coerce,
      THEN conjunct2, THEN conjunct1]
  note tags = coercion_iff_prerelease
    [where c = "push_ctx (Some ''refs/tags/v1.2.3'') (Some True)"
      and r = "''refs/tags/v1.2.3''" and preferredRef = "''tags''"
      and parse_str = sample_parse and regexp = sample_regexp,
      THEN conjunct2, THEN conjunct2, THEN conjunct1]
  note dot = coercion_iff_prerelease
    [where c = "push_ctx (Some ''refs/tags/v1.2.3'') (Some True)"
      and r = "''refs/tags/v1.2.3''" and preferredRef = "''t.gs''"
      and parse_str = sample_parse and regexp = sample_regexp
      and remove_match = remove_refs_t_gs,
      THEN conjunct2, THEN conjunct2, THEN conjunct2]
  have a: "getReleaseTag sample_parse sample_coerce
             (release_ctx (Some ''v3.1-beta'') (Some True)) = Inr (Some (3, 1, 0))"
    using pre
    by (simp add: isPreRelease_def release_ctx_def sample_coerce_def semverParse_def coerce_def)
  have b: "getReleaseTag sample_parse sample_coerce
             (release_ctx (Some ''v3.1-beta'') (Some False)) = Inr None"
    using pub
    by (simp add: isPreRelease_def release_ctx_def sample_parse_def semverParse_def)
  have c: "getPushRefVersion sample_parse sample_regexp
             (push_ctx (Some ''refs/tags/v1.2.3'') (Some True)) ''tags'' = Inr (Some (1, 2, 3))"
    using tags lit by (simp add: push_ctx_def replace_prefix_def semverParse_def v)
  have d: "getPushRefVersion sample_parse sample_regexp
             (push_ctx (Some ''refs/tags/v1.2.3'') (Some True)) ''t.gs'' = Inr (Some (1, 2, 3))"
    using dot pat by (simp add: push_ctx_def strip2 semverParse_def v)
  show ?thesis
    using a b c d lit not_lit pat by (simp add: isPreRelease_def release_ctx_def)
qed

text \<open>
  Claim C10. When the required field of the context is absent or does not parse,
  \<open>getReleaseTag\<close> and \<open>getPushRefVersion\<close> return \<^verbatim>\<open>null\<close> and raise nothing: a release
  without a tag name, a pre-release whose tag name cannot be coerced, a public release
  whose tag name does not parse, a push without a ref, and a push whose ref does not parse
  once its namespace prefix is removed. The namespace prefix is \<^verbatim>\<open>refs/{preferredRef}/\<close>
  for a \<^verbatim>\<open>preferredRef\<close> without syntax characters of patterns, such as \<^verbatim>\<open>heads\<close> and
  \<^verbatim>\<open>tags\<close>, and the match of the pattern for any \<^verbatim>\<open>preferredRef\<close> that makes one.
\<close>

theorem absent_or_unparseable_returns_null:
  "(Option.bind (release (payload c)) tag_name = None
      \<longrightarrow> getReleaseTag parse_str coerce_str c = Inr None)
   \<and> (isPreRelease c \<and> Option.bind (release (payload c)) tag_name = Some t
        \<and> coerce_str t = None
      \<longrightarrow> getReleaseTag parse_str coerce_str c = Inr None)
   \<and> (\<not> isPreRelease c \<and> Option.bind (release (payload c)) tag_name = Some t
        \<and> parse_str t = None
      \<longrightarrow> getReleaseTag parse_str coerce_str c = Inr None)
   \<and> (ref (payload c) = None
      \<longrightarrow> getPushRefVersion parse_str regexp c preferredRef = Inr None)
   \<and> (ref (payload c) = Some r \<and> regex_literal preferredRef
        \<and> parse_str (replace_prefix (''refs/'' @ preferredRef @ ''/'') r) = None
      \<longrightarrow> getPushRefVersion parse_str regexp c preferredRef = Inr None)
   \<and> (ref (payload c) = Some r \<and> namespace_RegExp regexp preferredRef = Inr remove_match
        \<and> parse_str (remove_match r) = None
      \<longrightarrow> getPushRefVersion parse_str regexp c preferredRef = Inr None)"
  by (simp add: getReleaseTag_no_tag getReleaseTag_prerelease getReleaseTag_public
      getPushRefVersion_no_ref getPushRefVersion_literal getPushRefVersion_ref)

text \<open>A release without a tag name, the pre-release \<^verbatim>\<open>latest\<close>, the public release
  \<^verbatim>\<open>v3.1-beta\<close>, a push without a ref, and the push of the branch \<^verbatim>\<open>main\<close> under
  \<^verbatim>\<open>heads\<close> and of the tag \<^verbatim>\<open>latest\<close> under \<^verbatim>\<open>t.gs\<close>.\<close>

theorem absent_or_unparseable_returns_null_witness:
  "getReleaseTag sample_parse sample_coerce (release_ctx None None) = Inr None
   \<and> isPreRelease (release_ctx (Some ''latest'') (Some True))
   \<and> sample_coerce ''latest'' = None
   \<and> getReleaseTag sample_parse sample_coerce (release_ctx (Some ''latest'') (Some True))
       = Inr None
   \<and> \<not> isPreRelease (release_ctx (Some ''v3.1-beta'') None)
   \<and> sample_parse ''v3.1-beta'' = None
   \<and> getReleaseTag sample_parse sample_coerce (release_ctx (Some ''v3.1-beta'') None)
       = Inr None
   \<and> getPushRefVersion sample_parse sample_regexp (push_ctx None None) ''**'' = Inr None
   \<and> regex_literal ''heads''
   \<and> replace_prefix (''refs/'' @ ''heads'' @ ''/'') ''refs/heads/main'' = ''main''
   \<and> sample_parse ''main'' = None
   \<and> getPushRefVersion sample_parse sample_regexp
         (push_ctx (Some ''refs/heads/main'') (Some True)) ''heads''
       = Inr None
   \<and> namespace_RegExp sample_regexp ''t.gs'' = Inr remove_refs_t_gs
   \<and> remove_refs_t_gs ''refs/tags/latest'' = ''latest''
   \<and> getPushRefVersion sample_parse sample_regexp
         (push_ctx (Some ''refs/tags/latest'') (Some True)) ''t.gs''
       = Inr None"
proof -
  have lit: "regex_literal ''heads''" and not_lit: "\<not> regex_literal ''t.gs''"
    by (simp_all add: regex_literal_def regex_syntax_characters_def)
  have pat: "namespace_RegExp sample_regexp ''t.gs'' = Inr remove_refs_t_gs"
    using not_lit by (simp add: namespace_RegExp_def sample_regexp_def)
  have strip1: "replace_prefix (''refs/'' @ ''heads'' @ ''/'') ''refs/heads/main'' = ''main''"
    by (simp add: replace_prefix_def)
  have strip2: "remove_refs_t_gs ''refs/tags/latest'' = ''latest''"
    by (simp add: remove_refs_t_gs_def)
  have unparsed: "sample_parse ''main'' = None" "sample_parse ''latest'' = None"
    "sample_parse ''v3.1-beta'' = None" "sample_coerce ''latest'' = None"
    by (simp_all add: sample_parse_def sample_coerce_def)
  note no_tag = absent_or_unparseable_returns_null
    [where c = "release_ctx None None" and parse_str = sample_parse
      and coerce_str = sample_coerce, THEN conjunct1]
  note uncoerced = absent_or_unparseable_returns_null
    [where c = "release_ctx (Some ''latest'') (Some True)" and t = "''latest''"
      and parse_str = sample_parse and coerce_str = sample_coerce,
      THEN conjunct2, THEN conjunct1]
  note unparsed_tag = absent_or_unparseable_returns_null
    [where c = "release_ctx (Some ''v3.1-beta'') None" and t = "''v3.1-beta''"
      and parse_str = sample_parse and coerce_str = sample_coerce,
      THEN conjunct2, THEN conjunct2, THEN conjunct1]
  note no_ref = absent_or_unparseable_returns_null
    [where c = "push_ctx None None" and parse_str = sample_parse and regexp = sample_regexp
      and preferredRef = "''**''",
      THEN conjunct2, THEN conjunct2, THEN conjunct2, THEN conjunct1]
  note branch = absent_or_unparseable_returns_null
    [where c = "push_ctx (Some ''refs/heads/main'') (Some True)" and r = "''refs/heads/main''"
      and parse_str = sample_parse and regexp = sample_regexp and preferredRef = "''heads''",
      THEN conjunct2, THEN conjunct2, THEN conjunct2, THEN conjunct2, THEN conjunct1]
  note dot = absent_or_unparseable_returns_null
    [where c = "push_ctx (Some ''refs/tags/latest'') (Some True)" and r = "''refs/tags/latest''"
      and parse_str = sample_parse and regexp = sample_regexp and preferredRef = "''t.gs''"
      and remove_match = remove_refs_t_gs,
      THEN conjunct2, THEN conjunct2, THEN conjunct2, THEN conjunct2, THEN conjunct2]
  have a: "getReleaseTag sample_parse sample_coerce (release_ctx None None) = Inr None"
    using no_tag by (simp add: release_ctx_def)
  have b: "getReleaseTag sample_parse sample_coerce
             (release_ctx (Some ''latest'') (Some True)) = Inr None"
    using uncoerced unparsed by (simp add: isPreRelease_def release_ctx_def)
  have c: "getReleaseTag sample_parse sample_coerce
             (release_ctx (Some ''v3.1-beta'') None) = Inr None"
    using unparsed_tag unparsed by (simp add: isPreRelease_def release_ctx_def)
  have d: "getPushRefVersion sample_parse sample_regexp (push_ctx None None) ''**'' = Inr None"
    using no_ref by (simp add: push_ctx_def)
  have e: "getPushRefVersion sample_parse sample_regexp
             (push_ctx (Some ''refs/heads/main'') (Some True)) ''heads'' = Inr None"
    using branch lit unparsed by (simp add: push_ctx_def replace_prefix_def)
  have f: "getPushRefVersion sample_parse sample_regexp
             (push_ctx (Some ''refs/tags/latest'') (Some True)) ''t.gs'' = Inr None"
    using dot pat unparsed by (simp add: push_ctx_def strip2)
  show ?thesis
    using a b c d e f lit pat strip1 strip2 unparsed
    by (simp add: isPreRelease_def release_ctx_def)
qed

section \<open>Properties of the upsert\<close>

lemma find_matching_iff:
  "(find P xs \<noteq> None) = (\<exists>x \<in> set xs. P x)"
  by (auto simp: find_None_iff)

text \<open>The calls of an upsert whose query is answered: the query, then one mutation.\<close>

lemma createRef_effects:
  assumes "listMatchingRefs github (context_repo c) refName = Inr matchingRefs"
  shows "calls_of (fst (createRef github c env refName)) =
           [ListMatchingRefs (context_repo c) refName,
            if (\<exists>refObj \<in> set matchingRefs. endsWith (refObj_ref refObj) refName)
            then UpdateRef (context_repo c) True refName (GITHUB_SHA env)
            else CreateRef (context_repo c) (''refs/'' @ refName) (GITHUB_SHA env)]"
proof (cases "\<exists>refObj \<in> set matchingRefs. endsWith (refObj_ref refObj) refName")
  case True
  then have "find (\<lambda>refObj. endsWith (refObj_ref refObj) refName) matchingRefs \<noteq> None"
    by (simp only: find_matching_iff)
  with assms True show ?thesis
    by (simp add: createRef_def Let_def split: sum.splits)
next
  case False
  then have "find (\<lambda>refObj. endsWith (refObj_ref refObj) refName) matchingRefs = None"
    using find_matching_iff [of "\<lambda>refObj. endsWith (refObj_ref refObj) refName" matchingRefs]
    by simp
  with assms False show ?thesis
    by (simp add: createRef_def Let_def split: sum.splits)
qed

lemma createRef_mutations:
  assumes "listMatchingRefs github (context_repo c) refName = Inr matchingRefs"
  shows "mutations_of (fst (createRef github c env refName)) =
           [if (\<exists>refObj \<in> set matchingRefs. endsWith (refObj_ref refObj) refName)
            then UpdateRef (context_repo c) True refName (GITHUB_SHA env)
            else CreateRef (context_repo c) (''refs/'' @ refName) (GITHUB_SHA env)]"
  by (simp add: mutations_of_def createRef_effects [OF assms])

text \<open>When the query is rejected the upsert stops there, with the error and no mutation.\<close>

lemma createRef_query_rejected:
  assumes "listMatchingRefs github (context_repo c) refName = Inl e"
  shows "createRef github c env refName
           = ([Call (ListMatchingRefs (context_repo c) refName)], Inl e)"
  using assms by (simp add: createRef_def)

text \<open>
  Claim C1. For every ref name and every set of refs the remote answers the query with,
  \<open>createRef\<close> first queries the matching refs and then performs exactly one mutation:
  when the full name of some returned ref ends with the ref name, one update call with the
  force flag set and no create call; otherwise one create call for \<^verbatim>\<open>refs/{refName}\<close> and
  no update call. It never issues both.
\<close>

theorem createRef_one_mutation:
  assumes "listMatchingRefs github (context_repo c) refName = Inr matchingRefs"
  shows "(\<exists>mutation.
            calls_of (fst (createRef github c env refName))
              = [ListMatchingRefs (context_repo c) refName, mutation]
            \<and> mutation =
                (if \<exists>refObj \<in> set matchingRefs. endsWith (refObj_ref refObj) refName
                 then UpdateRef (context_repo c) True refName (GITHUB_SHA env)
                 else CreateRef (context_repo c) (''refs/'' @ refName) (GITHUB_SHA env)))
         \<and> length (filter is_update (calls_of (fst (createRef github c env refName))))
             = (if \<exists>refObj \<in> set matchingRefs. endsWith (refObj_ref refObj) refName
                then 1 else 0)
         \<and> length (filter is_create (calls_of (fst (createRef github c env refName))))
             = (if \<exists>refObj \<in> set matchingRefs. endsWith (refObj_ref refObj) refName
                then 0 else 1)"
  by (simp add: createRef_effects [OF assms])

text \<open>The tag \<^verbatim>\<open>v1\<close> is updated where it exists beside \<^verbatim>\<open>v1.0.0\<close>, and created where only
  \<^verbatim>\<open>v1.0.0\<close> exists.\<close>

theorem createRef_one_mutation_witness:
  "listMatchingRefs (remote_refs [''refs/tags/v1'', ''refs/tags/v1.0.0''])
       (context_repo (release_ctx None None)) ''tags/v1''
     = Inr [\<lparr>refObj_ref = ''refs/tags/v1''\<rparr>, \<lparr>refObj_ref = ''refs/tags/v1.0.0''\<rparr>]
   \<and> calls_of (fst (createRef (remote_refs [''refs/tags/v1'', ''refs/tags/v1.0.0''])
                      (release_ctx None None) env0 ''tags/v1''))
     = [ListMatchingRefs repo0 ''tags/v1'', UpdateRef repo0 True ''tags/v1'' (Some ''c0ffee'')]
   \<and> listMatchingRefs (remote_refs [''refs/tags/v1.0.0''])
       (context_repo (release_ctx None None)) ''tags/v1''
     = Inr [\<lparr>refObj_ref = ''refs/tags/v1.0.0''\<rparr>]
   \<and> calls_of (fst (createRef (remote_refs [''refs/tags/v1.0.0''])
                      (release_ctx None None) env0 ''tags/v1''))
     = [ListMatchingRefs repo0 ''tags/v1'', CreateRef repo0 ''refs/tags/v1'' (Some ''c0ffee'')]"
proof -
  have h1: "listMatchingRefs (remote_refs [''refs/tags/v1'', ''refs/tags/v1.0.0''])
       (context_repo (release_ctx None None)) ''tags/v1''
     = Inr [\<lparr>refObj_ref = ''refs/tags/v1''\<rparr>, \<lparr>refObj_ref = ''refs/tags/v1.0.0''\<rparr>]"
    by (simp add: remote_refs_def)
  have h2: "listMatchingRefs (remote_refs [''refs/tags/v1.0.0''])
       (context_repo (release_ctx None None)) ''tags/v1''
     = Inr [\<lparr>refObj_ref = ''refs/tags/v1.0.0''\<rparr>]"
    by (simp add: remote_refs_def)
  show ?thesis
    using h1 h2 createRef_one_mutation [OF h1, of env0] createRef_one_mutation [OF h2, of env0]
    by (simp add: endsWith_def suffix_to_prefix env0_def release_ctx_def)
qed

text \<open>Where the refs the remote lists hold no ref but \<^verbatim>\<open>refs/{refName}\<close> whose name ends
  with the ref name, the test of \<open>createRef\<close> is the test for the ref of exactly that
  name.\<close>

lemma suffix_match_is_exact:
  assumes "no_other_suffix_match matchingRefs refName"
  shows "(\<exists>refObj \<in> set matchingRefs. endsWith (refObj_ref refObj) refName)
           \<longleftrightarrow> exact_ref_exists matchingRefs refName"
proof
  assume "\<exists>refObj \<in> set matchingRefs. endsWith (refObj_ref refObj) refName"
  then obtain x where x: "x \<in> set matchingRefs" "endsWith (refObj_ref x) refName" ..
  with assms have "refObj_ref x = ''refs/'' @ refName"
    unfolding no_other_suffix_match_def by blast
  with x(1) show "exact_ref_exists matchingRefs refName"
    unfolding exact_ref_exists_def by blast
next
  assume "exact_ref_exists matchingRefs refName"
  then obtain x where x: "x \<in> set matchingRefs" "refObj_ref x = ''refs/'' @ refName"
    unfolding exact_ref_exists_def by blast
  have "endsWith (refObj_ref x) refName"
    unfolding x(2) endsWith_def by (rule suffixI) (rule refl)
  with x(1) show "\<exists>refObj \<in> set matchingRefs. endsWith (refObj_ref refObj) refName"
    by blast
qed

text \<open>
  Claim C5, with the repository of the ambient context added. For any two runs given the
  same \<^verbatim>\<open>context.repo\<close>, the same ref name, the same desired commit id
  (\<^verbatim>\<open>process.env.GITHUB_SHA\<close>) and the same answer of the remote to whether this exact ref
  name already exists, \<open>createRef\<close> issues the same single mutation, an update when the ref
  exists and a create when it does not, with that commit id as target, whatever the rest
  of the event, the debug switch and the rest of the remote are. This is stated for remotes
  that list no other ref whose name ends with the ref name.
\<close>

theorem createRef_mutation_determined:
  assumes "context_repo c1 = context_repo c2"
    and "GITHUB_SHA env1 = GITHUB_SHA env2"
    and "listMatchingRefs github1 (context_repo c1) refName = Inr refs1"
    and "listMatchingRefs github2 (context_repo c2) refName = Inr refs2"
    and "no_other_suffix_match refs1 refName"
    and "no_other_suffix_match refs2 refName"
    and "exact_ref_exists refs1 refName \<longleftrightarrow> exact_ref_exists refs2 refName"
  shows "mutations_of (fst (createRef github1 c1 env1 refName))
           = mutations_of (fst (createRef github2 c2 env2 refName))
         \<and> mutations_of (fst (createRef github1 c1 env1 refName))
           = [if exact_ref_exists refs1 refName
              then UpdateRef (context_repo c1) True refName (GITHUB_SHA env1)
              else CreateRef (context_repo c1) (''refs/'' @ refName) (GITHUB_SHA env1)]
         \<and> map target_sha (mutations_of (fst (createRef github1 c1 env1 refName)))
           = [GITHUB_SHA env1]"
  using assms(1,2,7)
  by (simp add: createRef_mutations [OF assms(3)] createRef_mutations [OF assms(4)]
      suffix_match_is_exact [OF assms(5)] suffix_match_is_exact [OF assms(6)])

text \<open>A release run and a push run in the same repository, one with debugging on, against
  remotes that differ in their other refs: both force \<^verbatim>\<open>v1\<close> to the same commit.\<close>

theorem createRef_mutation_determined_witness:
  "exact_ref_exists [\<lparr>refObj_ref = ''refs/tags/v1''\<rparr>] ''tags/v1''
   \<and> exact_ref_exists [\<lparr>refObj_ref = ''refs/tags/v1''\<rparr>, \<lparr>refObj_ref = ''refs/tags/v1.0.0''\<rparr>]
        ''tags/v1''
   \<and> mutations_of (fst (createRef (remote_refs [''refs/tags/v1'']) (release_ctx None None)
                        env0 ''tags/v1''))
     = [UpdateRef repo0 True ''tags/v1'' (Some ''c0ffee'')]
   \<and> mutations_of (fst (createRef (remote_refs [''refs/tags/v1'', ''refs/tags/v1.0.0''])
                          (push_ctx (Some ''refs/tags/v1.0.0'') (Some True))
                          (env0\<lparr>isDebug := True\<rparr>) ''tags/v1''))
     = [UpdateRef repo0 True ''tags/v1'' (Some ''c0ffee'')]"
proof -
  have h1: "listMatchingRefs (remote_refs [''refs/tags/v1''])
       (context_repo (release_ctx None None)) ''tags/v1''
     = Inr [\<lparr>refObj_ref = ''refs/tags/v1''\<rparr>]"
    by (simp add: remote_refs_def)
  have h2: "listMatchingRefs (remote_refs [''refs/tags/v1'', ''refs/tags/v1.0.0''])
       (context_repo (push_ctx (Some ''refs/tags/v1.0.0'') (Some True))) ''tags/v1''
     = Inr [\<lparr>refObj_ref = ''refs/tags/v1''\<rparr>, \<lparr>refObj_ref = ''refs/tags/v1.0.0''\<rparr>]"
    by (simp add: remote_refs_def)
  have h3: "context_repo (release_ctx None None)
              = context_repo (push_ctx (Some ''refs/tags/v1.0.0'') (Some True))"
    by (simp add: release_ctx_def push_ctx_def)
  have h4: "GITHUB_SHA env0 = GITHUB_SHA (env0\<lparr>isDebug := True\<rparr>)"
    by simp
  have h5: "no_other_suffix_match [\<lparr>refObj_ref = ''refs/tags/v1''\<rparr>] ''tags/v1''"
    by (simp add: no_other_suffix_match_def)
  have h6: "no_other_suffix_match
              [\<lparr>refObj_ref = ''refs/tags/v1''\<rparr>, \<lparr>refObj_ref = ''refs/tags/v1.0.0''\<rparr>] ''tags/v1''"
    by (simp add: no_other_suffix_match_def endsWith_def suffix_to_prefix)
  have e1: "exact_ref_exists [\<lparr>refObj_ref = ''refs/tags/v1''\<rparr>] ''tags/v1''"
    by (simp add: exact_ref_exists_def)
  have e2: "exact_ref_exists
              [\<lparr>refObj_ref = ''refs/tags/v1''\<rparr>, \<lparr>refObj_ref = ''refs/tags/v1.0.0''\<rparr>] ''tags/v1''"
    by (simp add: exact_ref_exists_def)
  from e1 e2 have h7: "exact_ref_exists [\<lparr>refObj_ref = ''refs/tags/v1''\<rparr>] ''tags/v1''
     \<longleftrightarrow> exact_ref_exists
           [\<lparr>refObj_ref = ''refs/tags/v1''\<rparr>, \<lparr>refObj_ref = ''refs/tags/v1.0.0''\<rparr>] ''tags/v1''"
    by simp
  note run = createRef_mutation_determined [OF h3 h4 h1 h2 h5 h6 h7]
  note same = run [THEN conjunct1]
  from run [THEN conjunct2, THEN conjunct1] e1
  have first: "mutations_of (fst (createRef (remote_refs [''refs/tags/v1''])
                (release_ctx None None) env0 ''tags/v1''))
     = [UpdateRef repo0 True ''tags/v1'' (Some ''c0ffee'')]"
    by (simp add: release_ctx_def env0_def)
  show ?thesis
    unfolding same [symmetric] using first e1 e2 by simp
qed

text \<open>
  Claim C5 as stated fails. Two runs with the same ref name, the same commit id and the
  same answer of the remote, in two repositories of the ambient context, issue two
  different mutations: the upsert reads \<^verbatim>\<open>context.repo\<close>.
\<close>

theorem createRef_reads_context_repo_counterexample:
  "listMatchingRefs (remote_refs []) (context_repo (push_ctx (Some ''refs/tags/v1.0.0'') (Some True)))
       ''tags/v1''
     = listMatchingRefs (remote_refs []) (context_repo fork_ctx) ''tags/v1''
   \<and> mutations_of (fst (createRef (remote_refs [])
                          (push_ctx (Some ''refs/tags/v1.0.0'') (Some True)) env0 ''tags/v1''))
     = [CreateRef \<lparr>owner = ''gomex'', repo = ''actions-tagger''\<rparr> ''refs/tags/v1''
          (Some ''c0ffee'')]
   \<and> mutations_of (fst (createRef (remote_refs []) fork_ctx env0 ''tags/v1''))
     = [CreateRef \<lparr>owner = ''fork'', repo = ''actions-tagger''\<rparr> ''refs/tags/v1''
          (Some ''c0ffee'')]
   \<and> mutations_of (fst (createRef (remote_refs [])
                          (push_ctx (Some ''refs/tags/v1.0.0'') (Some True)) env0 ''tags/v1''))
     \<noteq> mutations_of (fst (createRef (remote_refs []) fork_ctx env0 ''tags/v1''))"
  by (simp add: createRef_def mutations_of_def remote_refs_def push_ctx_def fork_ctx_def
      env0_def repo0_def Let_def)

section \<open>Properties of the enumeration\<close>

subsection \<open>The effects of one page\<close>

lemma queries_of_append: "queries_of (es @ fs) = queries_of es @ queries_of fs"
  by (induction es rule: queries_of.induct) simp_all

lemma yields_of_append: "yields_of (es @ fs) = yields_of es @ yields_of fs"
  by (induction es rule: yields_of.induct) simp_all

lemma queries_of_refs_loop: "queries_of (refs_loop parse_str env rs) = []"
  by (induction rs) (simp_all add: queries_of_append split: option.splits)

lemma yields_of_refs_loop:
  "yields_of (refs_loop parse_str env rs) =
     List.map_filter (\<lambda>r. map_option (\<lambda>v. (v, shaId (object r))) (parse_str (name r))) rs"
  by (induction rs)
    (simp_all add: yields_of_append semverParse_def split: option.splits)

lemma yields_of_page:
  "yields_of (refs_loop parse_str env (refsList (refs p))) = parsed_refs parse_str p"
  by (simp add: yields_of_refs_loop parsed_refs_def)

lemma in_map_filter_refs:
  "(v, s) \<in> set (List.map_filter
       (\<lambda>r. map_option (\<lambda>v. (v, shaId (object r))) (parse_str (name r))) rs)
     \<longleftrightarrow> (\<exists>r \<in> set rs. parse_str (name r) = Some v \<and> s = shaId (object r))"
  by (induction rs) (auto split: option.splits)

lemma in_parsed_refs:
  "(v, s) \<in> set (parsed_refs parse_str p) \<longleftrightarrow>
     (\<exists>r \<in> set (refsList (refs p)). parse_str (name r) = Some v \<and> s = shaId (object r))"
  by (simp add: parsed_refs_def in_map_filter_refs)

subsection \<open>One turn of the pagination loop\<close>

text \<open>The three ways a turn of the loop goes: the page reports a next page and the loop
  goes on with its end cursor, the page reports none and the loop is left, or the query is
  rejected.\<close>

lemma loop_more:
  assumes "hasNextPage (pageInfo (refs p))"
  shows "listAllRefs_loop parse_str c env preferredRef nextPage (Inr p # answers) =
     (Graphql (graphql_vars c preferredRef nextPage) # refs_loop parse_str env (refsList (refs p))
        @ fst (listAllRefs_loop parse_str c env preferredRef
                 (Some (endCursor (pageInfo (refs p)))) answers),
      snd (listAllRefs_loop parse_str c env preferredRef
             (Some (endCursor (pageInfo (refs p)))) answers))"
  using assms by (simp add: Let_def split: prod.splits)

lemma loop_last:
  assumes "\<not> hasNextPage (pageInfo (refs p))"
  shows "listAllRefs_loop parse_str c env preferredRef nextPage (Inr p # answers) =
     (Graphql (graphql_vars c preferredRef nextPage) # refs_loop parse_str env (refsList (refs p)),
      Some (Inr ()))"
  using assms by (simp add: Let_def)

lemma loop_rejected:
  "listAllRefs_loop parse_str c env preferredRef nextPage (Inl e # answers) =
     ([Graphql (graphql_vars c preferredRef nextPage)], Some (Inl e))"
  by simp

subsection \<open>Runs of the loop\<close>

text \<open>The run over a sequence of pages, from any cursor.\<close>

lemma loop_page_sequence:
  assumes "page_sequence ps"
  shows "snd (listAllRefs_loop parse_str c env preferredRef nextPage (map Inr ps @ later))
           = Some (Inr ())
    \<and> queries_of
          (fst (listAllRefs_loop parse_str c env preferredRef nextPage (map Inr ps @ later)))
        = map (graphql_vars c preferredRef)
            (nextPage # map (\<lambda>p. Some (endCursor (pageInfo (refs p)))) (butlast ps))
    \<and> yields_of
          (fst (listAllRefs_loop parse_str c env preferredRef nextPage (map Inr ps @ later)))
        = concat (map (parsed_refs parse_str) ps)"
  using assms
proof (induction ps arbitrary: nextPage rule: page_sequence.induct)
  case 1
  then show ?case by simp
next
  case (2 p)
  then show ?case
    by (simp add: loop_last queries_of_refs_loop yields_of_page del: listAllRefs_loop.simps)
next
  case (3 p q ps)
  then have more: "hasNextPage (pageInfo (refs p))" and rest: "page_sequence (q # ps)"
    by simp_all
  note ih = "3.IH" [OF rest, of "Some (endCursor (pageInfo (refs p)))"]
  show ?case
    using ih
    by (simp add: loop_more [OF more] queries_of_append yields_of_append
        queries_of_refs_loop yields_of_page del: listAllRefs_loop.simps)
qed

text \<open>Every yielded pair is a ref of an answered page whose name parses.\<close>

lemma loop_yields_parsed:
  assumes "(v, s) \<in> set (yields_of
             (fst (listAllRefs_loop parse_str c env preferredRef nextPage answers)))"
  shows "\<exists>p r. Inr p \<in> set answers \<and> r \<in> set (refsList (refs p))
           \<and> parse_str (name r) = Some v \<and> s = shaId (object r)"
  using assms
proof (induction answers arbitrary: nextPage)
  case Nil
  then show ?case by simp
next
  case (Cons a answers)
  show ?case
  proof (cases a)
    case (Inl e)
    with Cons.prems show ?thesis by simp
  next
    case (Inr p)
    show ?thesis
    proof (cases "hasNextPage (pageInfo (refs p))")
      case True
      from Cons.prems have "(v, s) \<in> set (parsed_refs parse_str p)
          \<or> (v, s) \<in> set (yields_of (fst (listAllRefs_loop parse_str c env preferredRef
                (Some (endCursor (pageInfo (refs p)))) answers)))"
        by (simp add: Inr loop_more [OF True] yields_of_append yields_of_page
            del: listAllRefs_loop.simps)
      then show ?thesis
      proof
        assume "(v, s) \<in> set (parsed_refs parse_str p)"
        then show ?thesis using Inr by (auto simp: in_parsed_refs)
      next
        assume "(v, s) \<in> set (yields_of (fst (listAllRefs_loop parse_str c env preferredRef
                (Some (endCursor (pageInfo (refs p)))) answers)))"
        from Cons.IH [OF this] show ?thesis by auto
      qed
    next
      case False
      from Cons.prems have "(v, s) \<in> set (parsed_refs parse_str p)"
        by (simp add: Inr loop_last [OF False] yields_of_page del: listAllRefs_loop.simps)
      then show ?thesis using Inr by (auto simp: in_parsed_refs)
    qed
  qed
qed

text \<open>An error of the run is a rejection of the remote.\<close>

lemma loop_raises_only_rejections:
  assumes "snd (listAllRefs_loop parse_str c env preferredRef nextPage answers) = Some (Inl e)"
  shows "Inl e \<in> set answers"
  using assms
proof (induction answers arbitrary: nextPage)
  case Nil
  then show ?case by simp
next
  case (Cons a answers)
  show ?case
  proof (cases a)
    case (Inl e')
    with Cons.prems show ?thesis by simp
  next
    case (Inr p)
    show ?thesis
    proof (cases "hasNextPage (pageInfo (refs p))")
      case True
      with Cons.prems Inr have "snd (listAllRefs_loop parse_str c env preferredRef
                (Some (endCursor (pageInfo (refs p)))) answers) = Some (Inl e)"
        by (simp add: loop_more del: listAllRefs_loop.simps)
      from Cons.IH [OF this] show ?thesis by simp
    next
      case False
      with Cons.prems Inr show ?thesis by (simp add: loop_last del: listAllRefs_loop.simps)
    qed
  qed
qed

text \<open>A page without a next page among the answers makes the run return.\<close>

lemma loop_returns:
  assumes "Inr p \<in> set answers" and "\<not> hasNextPage (pageInfo (refs p))"
  shows "\<exists>res. snd (listAllRefs_loop parse_str c env preferredRef nextPage answers) = Some res"
  using assms
proof (induction answers arbitrary: nextPage)
  case Nil
  then show ?case by simp
next
  case (Cons a answers)
  show ?case
  proof (cases a)
    case (Inl e')
    then show ?thesis by simp
  next
    case (Inr q)
    show ?thesis
    proof (cases "hasNextPage (pageInfo (refs q))")
      case True
      with Cons.prems Inr have "Inr p \<in> set answers" by auto
      from Cons.IH [OF this Cons.prems(2)] show ?thesis
        by (simp add: Inr loop_more [OF True] del: listAllRefs_loop.simps)
    next
      case False
      then show ?thesis by (simp add: Inr loop_last del: listAllRefs_loop.simps)
    qed
  qed
qed

text \<open>While every page reports a next page the run does not return: after n answers it
  has sent n + 1 queries and waits for the next answer.\<close>

lemma loop_waits:
  assumes "\<forall>a \<in> set answers. \<exists>p. a = Inr p \<and> hasNextPage (pageInfo (refs p))"
  shows "snd (listAllRefs_loop parse_str c env preferredRef nextPage answers) = None
     \<and> length (queries_of (fst (listAllRefs_loop parse_str c env preferredRef nextPage answers)))
         = Suc (length answers)"
  using assms
proof (induction answers arbitrary: nextPage)
  case Nil
  then show ?case by simp
next
  case (Cons a answers)
  then obtain p where a: "a = Inr p" and more: "hasNextPage (pageInfo (refs p))" by auto
  from Cons.prems have "\<forall>a \<in> set answers. \<exists>p. a = Inr p \<and> hasNextPage (pageInfo (refs p))"
    by simp
  from Cons.IH [OF this] show ?case
    by (simp add: a loop_more [OF more] queries_of_append queries_of_refs_loop
        del: listAllRefs_loop.simps)
qed

text \<open>A run that has returned has read all it reads: answers beyond those it consumed
  change nothing.\<close>

lemma loop_stable:
  assumes "snd (listAllRefs_loop parse_str c env preferredRef nextPage answers) = Some res"
  shows "listAllRefs_loop parse_str c env preferredRef nextPage (answers @ later)
           = listAllRefs_loop parse_str c env preferredRef nextPage answers"
  using assms
proof (induction answers arbitrary: nextPage)
  case Nil
  then show ?case by simp
next
  case (Cons a answers)
  show ?case
  proof (cases a)
    case (Inl e')
    then show ?thesis by simp
  next
    case (Inr q)
    show ?thesis
    proof (cases "hasNextPage (pageInfo (refs q))")
      case True
      with Cons.prems Inr have "snd (listAllRefs_loop parse_str c env preferredRef
                (Some (endCursor (pageInfo (refs q)))) answers) = Some res"
        by (simp add: loop_more del: listAllRefs_loop.simps)
      from Cons.IH [OF this] show ?thesis
        by (simp add: Inr loop_more [OF True] del: listAllRefs_loop.simps)
    next
      case False
      then show ?thesis by (simp add: Inr loop_last del: listAllRefs_loop.simps)
    qed
  qed
qed

text \<open>The effects of the run over a sequence of pages, in order: each query is followed by
  the effects of the page it is answered with.\<close>

lemma loop_page_sequence_effects:
  assumes "page_sequence ps"
  shows "fst (listAllRefs_loop parse_str c env preferredRef nextPage (map Inr ps @ later))
    = concat (map (\<lambda>(cursor, p). Graphql (graphql_vars c preferredRef cursor)
                                  # refs_loop parse_str env (refsList (refs p)))
        (zip (nextPage # map (\<lambda>p. Some (endCursor (pageInfo (refs p)))) (butlast ps)) ps))"
  using assms
proof (induction ps arbitrary: nextPage rule: page_sequence.induct)
  case 1
  then show ?case by simp
next
  case (2 p)
  then show ?case by (simp add: loop_last del: listAllRefs_loop.simps)
next
  case (3 p q ps)
  then have more: "hasNextPage (pageInfo (refs p))" and rest: "page_sequence (q # ps)"
    by simp_all
  note ih = "3.IH" [OF rest, of "Some (endCursor (pageInfo (refs p)))"]
  show ?case
    using ih
    by (simp add: loop_more [OF more] del: listAllRefs_loop.simps)
qed

text \<open>
  Claim C2. For every sequence of answers of the remote, every pair that \<open>listAllRefs\<close>
  yields comes from a ref of a page whose name parses, strictly, to the version of the
  pair; a ref whose name does not parse is yielded nowhere, and the enumeration raises
  nothing but a rejection of the remote.
\<close>

theorem listAllRefs_yields_versions_only:
  "(\<forall>(v, s) \<in> set (yields_of (fst (listAllRefs parse_str c env preferredRef answers))).
       \<exists>p r. Inr p \<in> set answers \<and> r \<in> set (refsList (refs p))
           \<and> semverParse parse_str (Str (name r)) = Some v \<and> s = shaId (object r))
   \<and> (\<forall>e. snd (listAllRefs parse_str c env preferredRef answers) = Some (Inl e)
          \<longrightarrow> Inl e \<in> set answers)"
proof (intro conjI allI impI ballI)
  fix x
  assume x: "x \<in> set (yields_of (fst (listAllRefs parse_str c env preferredRef answers)))"
  obtain v s where vs: "x = (v, s)" by (cases x)
  from x vs loop_yields_parsed [of v s parse_str c env preferredRef None answers]
  have "\<exists>p r. Inr p \<in> set answers \<and> r \<in> set (refsList (refs p))
           \<and> parse_str (name r) = Some v \<and> s = shaId (object r)"
    by (simp add: listAllRefs_def)
  then show "case x of (v, s) \<Rightarrow>
       \<exists>p r. Inr p \<in> set answers \<and> r \<in> set (refsList (refs p))
           \<and> semverParse parse_str (Str (name r)) = Some v \<and> s = shaId (object r)"
    by (simp add: vs semverParse_def)
next
  fix e
  assume "snd (listAllRefs parse_str c env preferredRef answers) = Some (Inl e)"
  then show "Inl e \<in> set answers"
    by (simp add: listAllRefs_def loop_raises_only_rejections)
qed

text \<open>Two pages with the refs \<^verbatim>\<open>v1.0.0\<close>, \<^verbatim>\<open>latest\<close> and \<^verbatim>\<open>v1.2.3\<close>: \<^verbatim>\<open>latest\<close> is dropped
  and the enumeration ends without an error.\<close>

theorem listAllRefs_yields_versions_only_witness:
  "yields_of (fst (listAllRefs sample_parse (push_ctx None None) env0 ''tags''
                     [Inr page1, Inr page2]))
     = [((1, 0, 0), ''aaa''), ((1, 2, 3), ''ccc'')]
   \<and> sample_parse ''v1.0.0'' = Some (1, 0, 0)
   \<and> sample_parse ''latest'' = None
   \<and> sample_parse ''v1.2.3'' = Some (1, 2, 3)
   \<and> snd (listAllRefs sample_parse (push_ctx None None) env0 ''tags'' [Inr page1, Inr page2])
     = Some (Inr ())"
  using listAllRefs_yields_versions_only
    [of sample_parse "push_ctx None None" env0 "''tags''" "[Inr page1, Inr page2]"]
  by (simp add: listAllRefs_def page1_def page2_def mk_page_def mk_ref_def semverParse_def
      sample_parse_def env0_def Let_def)

text \<open>
  Claim C3. When the remote serves a sequence of N pages, N > 1, \<open>listAllRefs\<close> sends
  exactly N queries, the first with no cursor and each later one with the end cursor of
  the page before, and yields the parsed refs of every page in the order of the pages;
  each page's refs follow its query and precede the next query, and answers the remote
  would give beyond the last page are never asked for.
\<close>

theorem listAllRefs_fetches_every_page:
  assumes "page_sequence ps" and "1 < length ps"
  shows "snd (listAllRefs parse_str c env preferredRef (map Inr ps @ later)) = Some (Inr ())
    \<and> length (queries_of (fst (listAllRefs parse_str c env preferredRef (map Inr ps @ later))))
        = length ps
    \<and> map pagination
        (queries_of (fst (listAllRefs parse_str c env preferredRef (map Inr ps @ later))))
        = None # map (\<lambda>p. Some (endCursor (pageInfo (refs p)))) (butlast ps)
    \<and> yields_of (fst (listAllRefs parse_str c env preferredRef (map Inr ps @ later)))
        = concat (map (parsed_refs parse_str) ps)
    \<and> fst (listAllRefs parse_str c env preferredRef (map Inr ps @ later))
        = concat (map (\<lambda>(cursor, p). Graphql (graphql_vars c preferredRef cursor)
                                      # refs_loop parse_str env (refsList (refs p)))
            (zip (None # map (\<lambda>p. Some (endCursor (pageInfo (refs p)))) (butlast ps)) ps))"
proof -
  from assms(2) have "ps \<noteq> []" by auto
  then have len: "Suc (length (butlast ps)) = length ps" by simp
  have pag: "map pagination (map (graphql_vars c preferredRef) cs) = cs" for cs
    by (induction cs) (simp_all add: graphql_vars_def)
  note seq = loop_page_sequence [OF assms(1), of parse_str c env preferredRef None later]
  show ?thesis
    unfolding listAllRefs_def
    using seq len
    by (simp only: pag loop_page_sequence_effects [OF assms(1)] length_map list.size
        length_Cons simp_thms)
qed

text \<open>The two pages of the example, followed by an answer that is never asked for: two
  queries, the second with the cursor \<^verbatim>\<open>abc\<close>.\<close>

theorem listAllRefs_fetches_every_page_witness:
  "page_sequence [page1, page2] \<and> 1 < length [page1, page2]
   \<and> snd (listAllRefs sample_parse (push_ctx None None) env0 ''tags''
            (map Inr [page1, page2] @ [Inr page1])) = Some (Inr ())
   \<and> map pagination
       (queries_of (fst (listAllRefs sample_parse (push_ctx None None) env0 ''tags''
                           (map Inr [page1, page2] @ [Inr page1]))))
     = [None, Some ''abc'']
   \<and> yields_of (fst (listAllRefs sample_parse (push_ctx None None) env0 ''tags''
                       (map Inr [page1, page2] @ [Inr page1])))
     = [((1, 0, 0), ''aaa''), ((1, 2, 3), ''ccc'')]"
proof -
  have h1: "page_sequence [page1, page2]"
    by (simp add: page1_def page2_def mk_page_def)
  have h2: "1 < length [page1, page2]" by simp
  have h3: "parsed_refs sample_parse page1 = [((1, 0, 0), ''aaa'')]"
    by (simp add: parsed_refs_def page1_def mk_page_def mk_ref_def sample_parse_def)
  have h4: "parsed_refs sample_parse page2 = [((1, 2, 3), ''ccc'')]"
    by (simp add: parsed_refs_def page2_def mk_page_def mk_ref_def sample_parse_def)
  have h5: "endCursor (pageInfo (refs page1)) = ''abc''"
    by (simp add: page1_def mk_page_def)
  note run = listAllRefs_fetches_every_page
    [OF h1 h2, of sample_parse "push_ctx None None" env0 "''tags''" "[Inr page1]"]
  note result = run [THEN conjunct1]
    and cursors = run [THEN conjunct2, THEN conjunct2, THEN conjunct1]
    and yields = run [THEN conjunct2, THEN conjunct2, THEN conjunct2, THEN conjunct1]
  show ?thesis
    using h1 result cursors yields by (simp add: h3 h4 h5)
qed

text \<open>
  Claim C9. For every sequence of answers in which some page reports no next page, the
  enumeration returns: the loop is left, through \<^verbatim>\<open>break\<close> or through a rejection that a
  query met before. When no ref of any page parses it yields nothing, and when no answer
  is a rejection it ends normally.
\<close>

theorem listAllRefs_terminates:
  assumes "Inr p \<in> set answers" and "\<not> hasNextPage (pageInfo (refs p))"
  shows "(\<exists>res. snd (listAllRefs parse_str c env preferredRef answers) = Some res)
    \<and> ((\<forall>q r. Inr q \<in> set answers \<and> r \<in> set (refsList (refs q))
             \<longrightarrow> parse_str (name r) = None)
        \<longrightarrow> yields_of (fst (listAllRefs parse_str c env preferredRef answers)) = [])
    \<and> ((\<forall>e. Inl e \<notin> set answers)
        \<longrightarrow> snd (listAllRefs parse_str c env preferredRef answers) = Some (Inr ()))"
proof (intro conjI impI)
  from loop_returns [OF assms, of parse_str c env preferredRef None]
  obtain res where res: "snd (listAllRefs parse_str c env preferredRef answers) = Some res"
    by (auto simp: listAllRefs_def)
  then show "\<exists>res. snd (listAllRefs parse_str c env preferredRef answers) = Some res" ..
  {
    assume none: "\<forall>e. Inl e \<notin> set answers"
    show "snd (listAllRefs parse_str c env preferredRef answers) = Some (Inr ())"
    proof (cases res)
      case (Inl e)
      with res have "Inl e \<in> set answers"
        by (simp add: listAllRefs_def loop_raises_only_rejections)
      with none show ?thesis by simp
    next
      case (Inr u)
      with res show ?thesis by simp
    qed
  }
next
  assume unparsed: "\<forall>q r. Inr q \<in> set answers \<and> r \<in> set (refsList (refs q))
             \<longrightarrow> parse_str (name r) = None"
  have "x \<notin> set (yields_of (fst (listAllRefs parse_str c env preferredRef answers)))" for x
  proof
    assume x: "x \<in> set (yields_of (fst (listAllRefs parse_str c env preferredRef answers)))"
    obtain v s where "x = (v, s)" by (cases x)
    with x loop_yields_parsed [of v s parse_str c env preferredRef None answers]
    obtain q r where "Inr q \<in> set answers" "r \<in> set (refsList (refs q))"
      "parse_str (name r) = Some v"
      by (auto simp: listAllRefs_def)
    with unparsed show False by auto
  qed
  then show "yields_of (fst (listAllRefs parse_str c env preferredRef answers)) = []"
    by (cases "yields_of (fst (listAllRefs parse_str c env preferredRef answers))") auto
qed

text \<open>A namespace of two pages whose refs are \<^verbatim>\<open>latest\<close> and \<^verbatim>\<open>main\<close>: nothing is yielded
  and the enumeration ends after the second page.\<close>

theorem listAllRefs_terminates_witness:
  "Inr page_unversioned \<in> set [Inr (mk_page [mk_ref ''latest'' ''bbb''] ''abc'' True),
                                Inr page_unversioned :: error + repository]
   \<and> \<not> hasNextPage (pageInfo (refs page_unversioned))
   \<and> snd (listAllRefs sample_parse (push_ctx None None) env0 ''heads''
            [Inr (mk_page [mk_ref ''latest'' ''bbb''] ''abc'' True), Inr page_unversioned])
     = Some (Inr ())
   \<and> yields_of (fst (listAllRefs sample_parse (push_ctx None None) env0 ''heads''
                       [Inr (mk_page [mk_ref ''latest'' ''bbb''] ''abc'' True),
                        Inr page_unversioned]))
     = []"
proof -
  have h1: "Inr page_unversioned \<in> set [Inr (mk_page [mk_ref ''latest'' ''bbb''] ''abc'' True),
                                Inr page_unversioned :: error + repository]"
    by simp
  have h2: "\<not> hasNextPage (pageInfo (refs page_unversioned))"
    by (simp add: page_unversioned_def mk_page_def)
  from listAllRefs_terminates [OF h1 h2, of sample_parse "push_ctx None None" env0 "''heads''"]
  show ?thesis
    using h1 h2
    by (simp add: listAllRefs_def page_unversioned_def mk_page_def mk_ref_def semverParse_def
        sample_parse_def env0_def Let_def)
qed

end
